theory Spec2Isabelle
  imports Complex_Main
begin

section \<open>Configuration\<close>

text \<open>
  The gameplay core of \<^verbatim>\<open>src/js/game.js\<close>. JavaScript numbers are modelled as exact
  rationals: every claim below is about comparisons, additions of constants and
  counting, none about rounding. The constants are the fields of \<^verbatim>\<open>CONFIG\<close> that the
  simulation reads.
\<close>

definition bird_startX :: rat where "bird_startX = 0"
definition bird_startY :: rat where "bird_startY = 8"
definition bird_startZ :: rat where "bird_startZ = - 20"
definition bird_size :: rat where "bird_size = 1.2"
definition bird_gravity :: rat where "bird_gravity = - 0.018"
definition bird_flapStrength :: rat where "bird_flapStrength = 0.4"
definition bird_maxVelocity :: rat where "bird_maxVelocity = 0.5"
definition bird_minVelocity :: rat where "bird_minVelocity = - 0.6"

definition pipes_speed :: rat where "pipes_speed = 0.3"
definition pipes_spawnInterval :: rat where "pipes_spawnInterval = 2500"
definition pipes_gapSize :: rat where "pipes_gapSize = 9"
definition pipes_width :: rat where "pipes_width = 4"
definition pipes_depth :: rat where "pipes_depth = 4"
definition pipes_startZ :: rat where "pipes_startZ = - 120"
definition pipes_endZ :: rat where "pipes_endZ = 10"
definition pipes_minY :: rat where "pipes_minY = 4"
definition pipes_maxY :: rat where "pipes_maxY = 14"

definition bounds_top :: rat where "bounds_top = 18"
definition bounds_bottom :: rat where "bounds_bottom = - 2"

lemmas config_defs =
  bird_startX_def bird_startY_def bird_startZ_def bird_size_def bird_gravity_def
  bird_flapStrength_def bird_maxVelocity_def bird_minVelocity_def
  pipes_speed_def pipes_spawnInterval_def pipes_gapSize_def pipes_width_def
  pipes_depth_def pipes_startZ_def pipes_endZ_def pipes_minY_def pipes_maxY_def
  bounds_top_def bounds_bottom_def

section \<open>State\<close>

text \<open>\<^verbatim>\<open>gameState.status\<close>: one of \<^verbatim>\<open>'start'\<close>, \<^verbatim>\<open>'playing'\<close>, \<^verbatim>\<open>'gameover'\<close>.\<close>

datatype status = Start | Playing | Gameover

text \<open>
  A pipe group: \<^verbatim>\<open>position.x\<close>, \<^verbatim>\<open>position.z\<close> and the three \<^verbatim>\<open>userData\<close> fields.
  The meshes inside the group are presentation only.
\<close>

record pipe =
  px :: rat
  pz :: rat
  gapTop :: rat
  gapBottom :: rat
  passed :: bool

text \<open>
  The variables of the enclosing closure that the simulation reads or writes.
  \<open>tilt\<close> is \<^verbatim>\<open>birdModel.rotation.x\<close>; \<open>stored\<close> is the log of the values written to
  \<^verbatim>\<open>localStorage\<close> under \<^verbatim>\<open>'flappyHighScore'\<close>, oldest first. The scene graph and the DOM
  elements are presentation and are left out.
\<close>

record game =
  status :: status
  score :: int
  highScore :: int
  birdX :: rat
  birdY :: rat
  birdZ :: rat
  birdVelocity :: rat
  tilt :: rat
  pipes :: "pipe list"
  gameTime :: rat
  lastPipeSpawn :: rat
  stored :: "int list"

text \<open>
  What one call of \<^verbatim>\<open>render\<close> reads from its environment: \<^verbatim>\<open>clock.getDelta()\<close>,
  \<^verbatim>\<open>Math.random()\<close>, and the two sines of the wall-clock time used by the idle animation,
  \<^verbatim>\<open>Math.sin(time * 2)\<close> and \<^verbatim>\<open>Math.sin(time * 3)\<close>.
\<close>

record frame =
  delta :: rat
  rnd :: rat
  sin2 :: rat
  sin3 :: rat

section \<open>Pipes\<close>

text \<open>The group built by \<^verbatim>\<open>createPipe(gapCenterY)\<close> before it is pushed.\<close>

definition pipeGroup :: "rat \<Rightarrow> pipe" where
  "pipeGroup gapCenterY =
     \<lparr> px = bird_startX,
       pz = pipes_startZ,
       gapTop = gapCenterY + pipes_gapSize / 2,
       gapBottom = gapCenterY - pipes_gapSize / 2,
       passed = False \<rparr>"

definition createPipe :: "rat \<Rightarrow> game \<Rightarrow> game" where
  "createPipe gapCenterY g = g\<lparr>pipes := pipes g @ [pipeGroup gapCenterY]\<rparr>"

definition spawnPipe :: "rat \<Rightarrow> game \<Rightarrow> game" where
  "spawnPipe r g =
     (let gapY = pipes_minY + r * (pipes_maxY - pipes_minY) in createPipe gapY g)"

definition incrementScore :: "game \<Rightarrow> game" where
  "incrementScore g = g\<lparr>score := score g + 1\<rparr>"

text \<open>
  The body of the loop of \<^verbatim>\<open>updatePipes\<close> at index \<open>i\<close>, in its three steps. The pipe
  is an object held by the array, so each step writes through the array.
\<close>

definition movePipe :: "nat \<Rightarrow> game \<Rightarrow> game" where
  "movePipe i g =
     (let pipe = pipes g ! i
      in g\<lparr>pipes := (pipes g)[i := pipe\<lparr>pz := pz pipe + pipes_speed\<rparr>]\<rparr>)"

definition markPassed :: "nat \<Rightarrow> game \<Rightarrow> game" where
  "markPassed i g =
     (let pipe = pipes g ! i
      in if \<not> passed pipe \<and> pz pipe > birdZ g + 2
         then incrementScore (g\<lparr>pipes := (pipes g)[i := pipe\<lparr>passed := True\<rparr>]\<rparr>)
         else g)"

definition splice1 :: "nat \<Rightarrow> 'a list \<Rightarrow> 'a list" where
  "splice1 i xs = take i xs @ drop (Suc i) xs"

definition retirePipe :: "nat \<Rightarrow> game \<Rightarrow> game" where
  "retirePipe i g =
     (let pipe = pipes g ! i
      in if pz pipe > pipes_endZ then g\<lparr>pipes := splice1 i (pipes g)\<rparr> else g)"

text \<open>
  Reading \<^verbatim>\<open>pipes[i]\<close> out of range gives \<^verbatim>\<open>undefined\<close>, and the access to its
  \<^verbatim>\<open>position\<close> throws: the result \<open>None\<close>.
\<close>

definition updatePipes_body :: "nat \<Rightarrow> game \<Rightarrow> game option" where
  "updatePipes_body i g =
     (if i < length (pipes g) then Some (retirePipe i (markPassed i (movePipe i g)))
      else None)"

text \<open>
  \<^verbatim>\<open>for (let i = pipes.length - 1; i >= 0; i--)\<close>: the first argument is \<open>i + 1\<close>, the
  number of indices still to visit.
\<close>

fun updatePipes_loop :: "nat \<Rightarrow> game \<Rightarrow> game option" where
  "updatePipes_loop 0 g = Some g"
| "updatePipes_loop (Suc i) g =
     (case updatePipes_body i g of
        None \<Rightarrow> None
      | Some g' \<Rightarrow> updatePipes_loop i g')"

definition updatePipes :: "rat \<Rightarrow> game \<Rightarrow> game option" where
  "updatePipes d g = updatePipes_loop (length (pipes g)) g"

section \<open>Collision detection\<close>

definition birdRadius :: rat where
  "birdRadius = bird_size * 0.8"

text \<open>The body of the loop over the pipes: does this pipe make the function return true.\<close>

definition pipeCollides :: "game \<Rightarrow> pipe \<Rightarrow> bool" where
  "pipeCollides g p =
     (let pipeZ = pz p;
          pipeX = (if px p = 0 then birdX g else px p);
          zDistance = \<bar>pipeZ - birdZ g\<bar>
      in if zDistance < pipes_depth / 2 + birdRadius then
           (let xDistance = \<bar>pipeX - birdX g\<bar>
            in if xDistance < pipes_width / 2 + birdRadius then
                 (if birdY g - birdRadius < gapBottom p \<or> birdY g + birdRadius > gapTop p
                  then True else False)
               else False)
         else False)"

fun checkPipes :: "game \<Rightarrow> pipe list \<Rightarrow> bool" where
  "checkPipes g [] = False"
| "checkPipes g (p # ps) = (if pipeCollides g p then True else checkPipes g ps)"

definition checkCollisions :: "game \<Rightarrow> bool" where
  "checkCollisions g =
     (if status g \<noteq> Playing then False
      else if birdY g < bounds_bottom + birdRadius \<or> birdY g > bounds_top - birdRadius
      then True
      else checkPipes g (pipes g))"

section \<open>Game logic\<close>

definition startGame :: "game \<Rightarrow> game" where
  "startGame g =
     g\<lparr> status := Playing,
        score := 0,
        birdVelocity := 0,
        gameTime := 0,
        lastPipeSpawn := 0,
        birdX := bird_startX,
        birdY := bird_startY,
        birdZ := bird_startZ,
        tilt := 0,
        pipes := [] \<rparr>"

definition gameOver :: "game \<Rightarrow> game" where
  "gameOver g =
     (let g1 = g\<lparr>status := Gameover\<rparr>
      in if score g1 > highScore g1
         then g1\<lparr>highScore := score g1, stored := stored g1 @ [score g1]\<rparr>
         else g1)"

definition flap :: "game \<Rightarrow> game" where
  "flap g =
     (let g1 = (if status g = Start \<or> status g = Gameover then startGame g else g)
      in if status g1 = Playing then g1\<lparr>birdVelocity := bird_flapStrength\<rparr> else g1)"

section \<open>Render loop\<close>

text \<open>\<^verbatim>\<open>THREE.MathUtils.lerp(x, y, t)\<close>.\<close>

definition lerp :: "rat \<Rightarrow> rat \<Rightarrow> rat \<Rightarrow> rat" where
  "lerp x y t = (1 - t) * x + t * y"

text \<open>The physics lines of \<^verbatim>\<open>render\<close>: gravity, clamp, position, tilt.\<close>

definition integrate :: "game \<Rightarrow> game" where
  "integrate g =
     (let g1 = g\<lparr>birdVelocity := birdVelocity g + bird_gravity\<rparr>;
          g2 = g1\<lparr>birdVelocity :=
                   max bird_minVelocity (min bird_maxVelocity (birdVelocity g1))\<rparr>;
          g3 = g2\<lparr>birdY := birdY g2 + birdVelocity g2\<rparr>;
          targetTilt = - birdVelocity g3 * 2.5
      in g3\<lparr>tilt := lerp (tilt g3) targetTilt 0.1\<rparr>)"

definition render :: "frame \<Rightarrow> game \<Rightarrow> game option" where
  "render f g =
     (if status g = Playing then
        (let g1 = g\<lparr>gameTime := gameTime g + delta f\<rparr>;
             g2 = integrate g1;
             g3 = (if gameTime g2 > lastPipeSpawn g2 + pipes_spawnInterval / 1000
                   then (spawnPipe (rnd f) g2)\<lparr>lastPipeSpawn := gameTime g2\<rparr>
                   else g2)
         in case updatePipes (delta f) g3 of
              None \<Rightarrow> None
            | Some g4 \<Rightarrow> Some (if checkCollisions g4 then gameOver g4 else g4))
      else if status g = Start then
        Some (g\<lparr>birdY := bird_startY + sin2 f * 0.5, tilt := sin3 f * 0.1\<rparr>)
      else Some g)"

section \<open>Sequences of operations\<close>

text \<open>The two operations on the flyer, for statements about every sequence of them.\<close>

datatype flyer_op = Integrate | Impulse

fun apply_flyer_op :: "game \<Rightarrow> flyer_op \<Rightarrow> game" where
  "apply_flyer_op g Integrate = integrate g"
| "apply_flyer_op g Impulse = flap g"

definition run_flyer_ops :: "flyer_op list \<Rightarrow> game \<Rightarrow> game" where
  "run_flyer_ops ops g = foldl apply_flyer_op g ops"

text \<open>\<open>n\<close> successive calls of \<^verbatim>\<open>updatePipes\<close>, with nothing spawned in between.\<close>

fun updatePipes_times :: "nat \<Rightarrow> game \<Rightarrow> game option" where
  "updatePipes_times 0 g = Some g"
| "updatePipes_times (Suc n) g =
     (case updatePipes 0 g of
        None \<Rightarrow> None
      | Some g' \<Rightarrow> updatePipes_times n g')"

text \<open>
  What the loop body does to one pipe, told apart from the array: the advanced pipe with
  its flag, whether it scores, and whether it stays.
\<close>

definition scoresNow :: "rat \<Rightarrow> pipe \<Rightarrow> bool" where
  "scoresNow bz p = (\<not> passed p \<and> pz p + pipes_speed > bz + 2)"

definition advanced :: "rat \<Rightarrow> pipe \<Rightarrow> pipe" where
  "advanced bz p =
     p\<lparr>pz := pz p + pipes_speed, passed := (passed p \<or> pz p + pipes_speed > bz + 2)\<rparr>"

definition stays :: "pipe \<Rightarrow> bool" where
  "stays p = (\<not> pz p > pipes_endZ)"

text \<open>The number of pipes of a registry whose flag is still false.\<close>

definition unpassed :: "pipe list \<Rightarrow> nat" where
  "unpassed ps = length (filter (\<lambda>p. \<not> passed p) ps)"

section \<open>Events of a run\<close>

text \<open>
  What happens to the game between two calls of \<^verbatim>\<open>updatePipes\<close>: the browser calls
  \<^verbatim>\<open>render\<close> once per frame, and the listeners call \<^verbatim>\<open>flap\<close> at any time in between.
\<close>

datatype event = Tick frame | Press

fun step_event :: "game \<Rightarrow> event \<Rightarrow> game option" where
  "step_event g (Tick f) = render f g"
| "step_event g Press = Some (flap g)"

fun run_events :: "event list \<Rightarrow> game \<Rightarrow> game option" where
  "run_events [] g = Some g"
| "run_events (e # es) g =
     (case step_event g e of
        None \<Rightarrow> None
      | Some g' \<Rightarrow> run_events es g')"

text \<open>
  Whether the frame \<open>f\<close> on the game \<open>g\<close> reaches the call of \<^verbatim>\<open>spawnPipe\<close>: the game is
  playing and the game time, with the frame's delta added, is beyond the last spawn plus the
  interval. The pipe it pushes is \<open>spawnedPipes\<close>.
\<close>

definition spawnsPipe :: "frame \<Rightarrow> game \<Rightarrow> bool" where
  "spawnsPipe f g =
     (status g = Playing \<and>
      gameTime g + delta f > lastPipeSpawn g + pipes_spawnInterval / 1000)"

definition spawnedPipes :: "frame \<Rightarrow> game \<Rightarrow> pipe list" where
  "spawnedPipes f g =
     (if spawnsPipe f g
      then [pipeGroup (pipes_minY + rnd f * (pipes_maxY - pipes_minY))]
      else [])"

text \<open>The number of pipes created along a run of events.\<close>

fun spawned :: "event list \<Rightarrow> game \<Rightarrow> nat" where
  "spawned [] g = 0"
| "spawned (e # es) g =
     (case e of Tick f \<Rightarrow> length (spawnedPipes f g) | Press \<Rightarrow> 0)
     + (case step_event g e of None \<Rightarrow> 0 | Some g' \<Rightarrow> spawned es g')"

section \<open>Concrete states\<close>

text \<open>
  The state once \<^verbatim>\<open>init\<close> has run; the argument is the high score read from
  \<^verbatim>\<open>localStorage\<close> (0 when absent or unparseable).
\<close>

definition initial :: "int \<Rightarrow> game" where
  "initial storedHigh =
     \<lparr> status = Start,
       score = 0,
       highScore = storedHigh,
       birdX = bird_startX,
       birdY = bird_startY,
       birdZ = bird_startZ,
       birdVelocity = 0,
       tilt = 0,
       pipes = [],
       gameTime = 0,
       lastPipeSpawn = 0,
       stored = [] \<rparr>"

text \<open>
  A running game with one pipe created for the gap centre \<open>c\<close> and brought to the
  bird's depth, and the bird at height \<open>y\<close>.
\<close>

definition oneGate :: "rat \<Rightarrow> rat \<Rightarrow> game" where
  "oneGate c y =
     (let g = createPipe c (flap (initial 0))
      in g\<lparr>birdY := y, pipes := map (\<lambda>p. p\<lparr>pz := birdZ g\<rparr>) (pipes g)\<rparr>)"

text \<open>A running game with no pipe, the bird at height \<open>y\<close>, with the given scores.\<close>

definition running :: "int \<Rightarrow> int \<Rightarrow> rat \<Rightarrow> game" where
  "running sc hs y = (flap (initial hs))\<lparr>score := sc, birdY := y\<rparr>"

text \<open>
  A running game with one pipe of gap centre 9 at depth \<open>z\<close>, its flag still false, and
  the bird at height 9.
\<close>

definition gateAt :: "rat \<Rightarrow> game" where
  "gateAt z = (oneGate 9 9)\<lparr>pipes := map (\<lambda>p. p\<lparr>pz := z\<rparr>) (pipes (oneGate 9 9))\<rparr>"

definition frame0 :: frame where
  "frame0 = \<lparr> delta = 0.016, rnd = 0.5, sin2 = 0, sin3 = 0 \<rparr>"

section \<open>The loop of updatePipes\<close>

lemma splice1_update: "splice1 i (xs[i := a]) = splice1 i xs"
  by (simp add: splice1_def)

lemma movePipe_eq:
  "movePipe i g = g\<lparr>pipes := (pipes g)[i := (pipes g ! i)\<lparr>pz := pz (pipes g ! i) + pipes_speed\<rparr>]\<rparr>"
  by (simp add: movePipe_def Let_def)

lemma markPassed_eq:
  assumes "i < length (pipes g)"
  shows "markPassed i (movePipe i g) =
    g\<lparr>pipes := (pipes g)[i := advanced (birdZ g) (pipes g ! i)],
      score := score g + (if scoresNow (birdZ g) (pipes g ! i) then 1 else 0)\<rparr>"
proof (cases "scoresNow (birdZ g) (pipes g ! i)")
  case True
  then show ?thesis
    using assms
    by (simp add: movePipe_eq markPassed_def incrementScore_def scoresNow_def advanced_def Let_def)
next
  case False
  then have "advanced (birdZ g) (pipes g ! i) = (pipes g ! i)\<lparr>pz := pz (pipes g ! i) + pipes_speed\<rparr>"
    by (auto simp add: scoresNow_def advanced_def)
  with False show ?thesis
    using assms
    by (auto simp add: movePipe_eq markPassed_def scoresNow_def Let_def)
qed

lemma retirePipe_eq:
  assumes "i < length xs"
  shows "retirePipe i (g\<lparr>pipes := xs[i := p], score := s\<rparr>) =
    g\<lparr>pipes := take i xs @ filter stays [p] @ drop (Suc i) xs, score := s\<rparr>"
  using assms
  by (simp add: retirePipe_def splice1_update stays_def)
     (simp add: splice1_def upd_conv_take_nth_drop)

lemma body_at:
  assumes "i < length (pipes g)"
  shows "updatePipes_body i g =
    Some (g\<lparr>pipes := take i (pipes g)
                 @ filter stays [advanced (birdZ g) (pipes g ! i)]
                 @ drop (Suc i) (pipes g),
            score := score g + (if scoresNow (birdZ g) (pipes g ! i) then 1 else 0)\<rparr>)"
  using assms
  by (simp only: updatePipes_body_def if_True markPassed_eq retirePipe_eq)


lemma loop_at:
  "n \<le> length (pipes g) \<Longrightarrow>
   updatePipes_loop n g =
     Some (g\<lparr>pipes := filter stays (map (advanced (birdZ g)) (take n (pipes g)))
                  @ drop n (pipes g),
             score := score g
                  + int (length (filter (scoresNow (birdZ g)) (take n (pipes g))))\<rparr>)"
proof (induction n arbitrary: g)
  case 0
  then show ?case by simp
next
  case (Suc n)
  let ?xs = "pipes g"
  let ?g' = "g\<lparr>pipes := take n ?xs @ filter stays [advanced (birdZ g) (?xs ! n)]
                      @ drop (Suc n) ?xs,
                score := score g + (if scoresNow (birdZ g) (?xs ! n) then 1 else 0)\<rparr>"
  from Suc.prems have lt: "n < length ?xs" by simp
  then have body: "updatePipes_body n g = Some ?g'" by (rule body_at)
  have len: "n \<le> length (pipes ?g')" using lt by simp
  have tk: "take n (pipes ?g') = take n ?xs" using lt by simp
  have dr: "drop n (pipes ?g') = filter stays [advanced (birdZ g) (?xs ! n)] @ drop (Suc n) ?xs"
    using lt by simp
  have "updatePipes_loop (Suc n) g = updatePipes_loop n ?g'"
    by (simp add: body)
  also have "\<dots> = Some (?g'\<lparr>pipes := filter stays (map (advanced (birdZ ?g')) (take n (pipes ?g')))
                  @ drop n (pipes ?g'),
             score := score ?g'
                  + int (length (filter (scoresNow (birdZ ?g')) (take n (pipes ?g'))))\<rparr>)"
    using len by (rule Suc.IH)
  also have "\<dots> = Some (g\<lparr>pipes := filter stays (map (advanced (birdZ g)) (take (Suc n) ?xs))
                  @ drop (Suc n) ?xs,
             score := score g
                  + int (length (filter (scoresNow (birdZ g)) (take (Suc n) ?xs)))\<rparr>)"
    unfolding tk dr using lt by (simp add: take_Suc_conv_app_nth)
  finally show ?case .
qed

lemma updatePipes_eq:
  "updatePipes d g =
     Some (g\<lparr>pipes := filter stays (map (advanced (birdZ g)) (pipes g)),
             score := score g + int (length (filter (scoresNow (birdZ g)) (pipes g)))\<rparr>)"
  by (simp add: updatePipes_def loop_at)

lemma filter_stays_advanced:
  "filter stays (map (advanced bz) xs) =
   map (advanced bz) (filter (\<lambda>p. \<not> pz p + pipes_speed > pipes_endZ) xs)"
  by (induction xs) (simp_all add: stays_def advanced_def)

lemma unpassed_step:
  "unpassed (filter stays (map (advanced bz) xs)) + length (filter (scoresNow bz) xs)
     \<le> unpassed xs"
  by (induction xs) (auto simp add: unpassed_def advanced_def scoresNow_def)

lemma times_bound:
  "\<exists>g'. updatePipes_times n g = Some g' \<and> score g \<le> score g' \<and>
     score g' + int (unpassed (pipes g')) \<le> score g + int (unpassed (pipes g))"
proof (induction n arbitrary: g)
  case 0
  show ?case by simp
next
  case (Suc n)
  let ?g1 = "g\<lparr>pipes := filter stays (map (advanced (birdZ g)) (pipes g)),
             score := score g + int (length (filter (scoresNow (birdZ g)) (pipes g)))\<rparr>"
  obtain g' where g': "updatePipes_times n ?g1 = Some g'" "score ?g1 \<le> score g'"
    "score g' + int (unpassed (pipes g')) \<le> score ?g1 + int (unpassed (pipes ?g1))"
    using Suc.IH [of ?g1] by blast
  have "updatePipes_times (Suc n) g = Some g'"
    using g'(1) by (simp add: updatePipes_eq)
  moreover have "score g \<le> score g'" using g'(2) by simp
  moreover have "score g' + int (unpassed (pipes g')) \<le> score g + int (unpassed (pipes g))"
    using g'(3) unpassed_step [of "birdZ g" "pipes g"] by simp
  ultimately show ?case by blast
qed

section \<open>One frame of the render loop\<close>

lemmas scenario_defs =
  running_def oneGate_def initial_def frame0_def flap_def startGame_def createPipe_def
  pipeGroup_def

lemma integrate_velocity_eq:
  "birdVelocity (integrate g) =
     max bird_minVelocity (min bird_maxVelocity (birdVelocity g + bird_gravity))"
  by (simp add: integrate_def Let_def)

lemma integrate_fields:
  "status (integrate g) = status g"
  "highScore (integrate g) = highScore g"
  "stored (integrate g) = stored g"
  "gameTime (integrate g) = gameTime g"
  "lastPipeSpawn (integrate g) = lastPipeSpawn g"
  by (simp_all add: integrate_def Let_def)

lemma spawnPipe_fields:
  "status (spawnPipe r g) = status g"
  "highScore (spawnPipe r g) = highScore g"
  "stored (spawnPipe r g) = stored g"
  "birdVelocity (spawnPipe r g) = birdVelocity g"
  by (simp_all add: spawnPipe_def createPipe_def Let_def)

lemma gameOver_fields:
  "status (gameOver g) = Gameover"
  "score (gameOver g) = score g"
  "birdVelocity (gameOver g) = birdVelocity g"
  "highScore (gameOver g) = (if score g > highScore g then score g else highScore g)"
  "stored (gameOver g) = (if score g > highScore g then stored g @ [score g] else stored g)"
  by (simp_all add: gameOver_def Let_def)

lemma render_playing:
  assumes "status g = Playing"
  shows "\<exists>g'. render f g = Some g' \<and>
     birdVelocity g' = birdVelocity (integrate g) \<and>
     (status g' = Playing \<or> status g' = Gameover) \<and>
     (status g' = Playing \<longrightarrow> highScore g' = highScore g \<and> stored g' = stored g) \<and>
     (status g' = Gameover \<longrightarrow>
        highScore g' = (if score g' > highScore g then score g' else highScore g) \<and>
        stored g' = (if score g' > highScore g then stored g @ [score g'] else stored g))"
proof -
  define g2 where "g2 = integrate (g\<lparr>gameTime := gameTime g + delta f\<rparr>)"
  define g3 where "g3 = (if gameTime g2 > lastPipeSpawn g2 + pipes_spawnInterval / 1000
                   then (spawnPipe (rnd f) g2)\<lparr>lastPipeSpawn := gameTime g2\<rparr>
                   else g2)"
  define g4 where "g4 = g3\<lparr>pipes := filter stays (map (advanced (birdZ g3)) (pipes g3)),
             score := score g3 + int (length (filter (scoresNow (birdZ g3)) (pipes g3)))\<rparr>"
  have up: "updatePipes (delta f) g3 = Some g4"
    unfolding g4_def by (rule updatePipes_eq)
  have r: "render f g = Some (if checkCollisions g4 then gameOver g4 else g4)"
    unfolding render_def Let_def g2_def [symmetric] g3_def [symmetric]
    using assms by (simp add: up)
  have v2: "birdVelocity g2 = birdVelocity (integrate g)"
    by (simp add: g2_def integrate_velocity_eq)
  have f2: "status g2 = Playing" "highScore g2 = highScore g" "stored g2 = stored g"
    using assms by (simp_all add: g2_def integrate_fields)
  have f3: "status g3 = Playing" "highScore g3 = highScore g" "stored g3 = stored g"
    "birdVelocity g3 = birdVelocity (integrate g)"
    using f2 v2 by (simp_all add: g3_def spawnPipe_fields)
  have f4: "status g4 = Playing" "highScore g4 = highScore g" "stored g4 = stored g"
    "birdVelocity g4 = birdVelocity (integrate g)"
    using f3 by (simp_all add: g4_def)
  show ?thesis
  proof (cases "checkCollisions g4")
    case True
    then have "render f g = Some (gameOver g4)" using r by simp
    then show ?thesis using f4 by (simp add: gameOver_fields)
  next
    case False
    then have "render f g = Some g4" using r by simp
    then show ?thesis using f4 by simp
  qed
qed

lemma render_not_playing:
  assumes "status g \<noteq> Playing"
  shows "\<exists>g'. render f g = Some g' \<and> status g' = status g \<and> highScore g' = highScore g \<and>
     stored g' = stored g \<and> birdVelocity g' = birdVelocity g"
  using assms by (cases "status g") (simp_all add: render_def)

section \<open>Pipes and score across frames and impulses\<close>

lemma integrate_keeps_pipes:
  "pipes (integrate g) = pipes g"
  "score (integrate g) = score g"
  "birdZ (integrate g) = birdZ g"
  by (simp_all add: integrate_def Let_def)

lemma spawnPipe_appends:
  "pipes (spawnPipe r g) = pipes g @ [pipeGroup (pipes_minY + r * (pipes_maxY - pipes_minY))]"
  "score (spawnPipe r g) = score g"
  "birdZ (spawnPipe r g) = birdZ g"
  by (simp_all add: spawnPipe_def createPipe_def Let_def)

lemma gameOver_keeps_pipes:
  "pipes (gameOver g) = pipes g"
  "birdZ (gameOver g) = birdZ g"
  by (simp_all add: gameOver_def Let_def)

lemma flap_playing_keeps:
  assumes "status g = Playing"
  shows "pipes (flap g) = pipes g \<and> score (flap g) = score g \<and> status (flap g) = Playing"
  using assms by (simp add: flap_def)

lemma flap_restart_clears:
  assumes "status g \<noteq> Playing"
  shows "pipes (flap g) = [] \<and> score (flap g) = 0"
  using assms by (cases "status g") (simp_all add: flap_def startGame_def)

lemma render_playing_pipes:
  assumes "status g = Playing"
  shows "\<exists>g'. render f g = Some g' \<and>
     pipes g' = filter stays (map (advanced (birdZ g)) (pipes g @ spawnedPipes f g)) \<and>
     score g' = score g
       + int (length (filter (scoresNow (birdZ g)) (pipes g @ spawnedPipes f g)))"
proof -
  define g2 where "g2 = integrate (g\<lparr>gameTime := gameTime g + delta f\<rparr>)"
  define g3 where "g3 = (if gameTime g2 > lastPipeSpawn g2 + pipes_spawnInterval / 1000
                   then (spawnPipe (rnd f) g2)\<lparr>lastPipeSpawn := gameTime g2\<rparr>
                   else g2)"
  define g4 where "g4 = g3\<lparr>pipes := filter stays (map (advanced (birdZ g3)) (pipes g3)),
             score := score g3 + int (length (filter (scoresNow (birdZ g3)) (pipes g3)))\<rparr>"
  have up: "updatePipes (delta f) g3 = Some g4"
    unfolding g4_def by (rule updatePipes_eq)
  have r: "render f g = Some (if checkCollisions g4 then gameOver g4 else g4)"
    unfolding render_def Let_def g2_def [symmetric] g3_def [symmetric]
    using assms by (simp add: up)
  have t2: "gameTime g2 = gameTime g + delta f" "lastPipeSpawn g2 = lastPipeSpawn g"
    by (simp_all add: g2_def integrate_fields)
  have f2: "pipes g2 = pipes g" "score g2 = score g" "birdZ g2 = birdZ g"
    by (simp_all add: g2_def integrate_keeps_pipes)
  have cond: "(gameTime g2 > lastPipeSpawn g2 + pipes_spawnInterval / 1000) = spawnsPipe f g"
    using assms by (simp add: t2 spawnsPipe_def)
  have f3: "pipes g3 = pipes g @ spawnedPipes f g" "score g3 = score g" "birdZ g3 = birdZ g"
    unfolding g3_def cond using f2
    by (simp_all add: spawnedPipes_def spawnPipe_appends)
  have f4: "pipes g4 = filter stays (map (advanced (birdZ g)) (pipes g @ spawnedPipes f g))"
    "score g4 = score g
       + int (length (filter (scoresNow (birdZ g)) (pipes g @ spawnedPipes f g)))"
    unfolding g4_def using f3 by simp_all
  show ?thesis
  proof (cases "checkCollisions g4")
    case True
    then have "render f g = Some (gameOver g4)" using r by simp
    then show ?thesis using f4 by (simp add: gameOver_keeps_pipes gameOver_fields)
  next
    case False
    then have "render f g = Some g4" using r by simp
    then show ?thesis using f4 by simp
  qed
qed

lemma render_idle_pipes:
  assumes "status g \<noteq> Playing"
  shows "\<exists>g'. render f g = Some g' \<and> pipes g' = pipes g \<and> score g' = score g"
  using assms by (cases "status g") (simp_all add: render_def)

lemma unpassed_append: "unpassed (xs @ ys) = unpassed xs + unpassed ys"
  by (simp add: unpassed_def)

lemma unpassed_spawnedPipes: "unpassed (spawnedPipes f g) = length (spawnedPipes f g)"
  by (simp add: unpassed_def spawnedPipes_def pipeGroup_def)

lemma step_potential:
  assumes "0 \<le> score g"
  shows "\<exists>g'. step_event g e = Some g' \<and> 0 \<le> score g' \<and>
     score g' + int (unpassed (pipes g'))
       \<le> score g + int (unpassed (pipes g)) + int (spawned [e] g)"
proof (cases e)
  case (Tick f)
  show ?thesis
  proof (cases "status g = Playing")
    case True
    let ?xs = "pipes g @ spawnedPipes f g"
    obtain g' where g': "render f g = Some g'"
      "pipes g' = filter stays (map (advanced (birdZ g)) ?xs)"
      "score g' = score g + int (length (filter (scoresNow (birdZ g)) ?xs))"
      using render_playing_pipes [OF True, of f] by blast
    have "unpassed (pipes g') + length (filter (scoresNow (birdZ g)) ?xs) \<le> unpassed ?xs"
      unfolding g'(2) by (rule unpassed_step)
    then have "score g' + int (unpassed (pipes g'))
        \<le> score g + int (unpassed (pipes g)) + int (length (spawnedPipes f g))"
      using g'(3) by (simp add: unpassed_append unpassed_spawnedPipes)
    moreover have "0 \<le> score g'" using g'(3) assms by simp
    ultimately show ?thesis using g'(1) Tick by simp
  next
    case False
    then obtain g' where "render f g = Some g'" "pipes g' = pipes g" "score g' = score g"
      using render_idle_pipes [of g f] by blast
    then show ?thesis using Tick assms by simp
  qed
next
  case Press
  show ?thesis
  proof (cases "status g = Playing")
    case True
    then show ?thesis using Press assms flap_playing_keeps [of g] by simp
  next
    case False
    then show ?thesis using Press assms flap_restart_clears [of g] by (simp add: unpassed_def)
  qed
qed

lemma run_potential:
  "0 \<le> score g \<Longrightarrow>
   \<exists>g'. run_events es g = Some g' \<and> 0 \<le> score g' \<and>
     score g' + int (unpassed (pipes g'))
       \<le> score g + int (unpassed (pipes g)) + int (spawned es g)"
proof (induction es arbitrary: g)
  case Nil
  then show ?case by simp
next
  case (Cons e es)
  obtain g1 where g1: "step_event g e = Some g1" "0 \<le> score g1"
    "score g1 + int (unpassed (pipes g1))
       \<le> score g + int (unpassed (pipes g)) + int (spawned [e] g)"
    using step_potential [OF Cons.prems, of e] by blast
  obtain g' where g': "run_events es g1 = Some g'" "0 \<le> score g'"
    "score g' + int (unpassed (pipes g'))
       \<le> score g1 + int (unpassed (pipes g1)) + int (spawned es g1)"
    using Cons.IH [OF g1(2)] by blast
  have run: "run_events (e # es) g = Some g'"
    using g1(1) g'(1) by simp
  have cnt: "spawned (e # es) g = spawned [e] g + spawned es g1"
    using g1(1) by simp
  have "score g' + int (unpassed (pipes g'))
       \<le> score g + int (unpassed (pipes g)) + int (spawned (e # es) g)"
    using g1(3) g'(3) unfolding cnt by linarith
  with run g'(2) show ?case by blast
qed

section \<open>Flyer physics\<close>

text \<open>
  Claim C1. For every sequence of integrate and impulse operations, the velocity after an
  integration step lies between \<open>bird_minVelocity\<close> (-0.6) and \<open>bird_maxVelocity\<close> (0.5).
  The step adds gravity, clamps, and then moves the bird by the clamped velocity; a frame of
  \<^verbatim>\<open>render\<close> on a playing game always returns and leaves the velocity in that range.
\<close>

theorem integrate_velocity_clamped:
  "bird_minVelocity = - 0.6 \<and> bird_maxVelocity = 0.5 \<and>
   bird_minVelocity \<le> birdVelocity (run_flyer_ops (ops @ [Integrate]) g) \<and>
   birdVelocity (run_flyer_ops (ops @ [Integrate]) g) \<le> bird_maxVelocity \<and>
   birdVelocity (integrate g) =
     max bird_minVelocity (min bird_maxVelocity (birdVelocity g + bird_gravity)) \<and>
   birdY (integrate g) = birdY g + birdVelocity (integrate g) \<and>
   (\<exists>g'. render f g = Some g' \<and>
      (status g = Playing \<longrightarrow>
         bird_minVelocity \<le> birdVelocity g' \<and> birdVelocity g' \<le> bird_maxVelocity))"
proof -
  have range: "\<And>h. bird_minVelocity \<le> birdVelocity (integrate h) \<and>
      birdVelocity (integrate h) \<le> bird_maxVelocity"
    unfolding integrate_velocity_eq
    by (auto simp add: max_def min_def bird_minVelocity_def bird_maxVelocity_def)
  have seq: "run_flyer_ops (ops @ [Integrate]) g = integrate (run_flyer_ops ops g)"
    by (simp add: run_flyer_ops_def)
  have pos: "birdY (integrate g) = birdY g + birdVelocity (integrate g)"
    by (simp add: integrate_def Let_def)
  have frame: "\<exists>g'. render f g = Some g' \<and>
      (status g = Playing \<longrightarrow>
         bird_minVelocity \<le> birdVelocity g' \<and> birdVelocity g' \<le> bird_maxVelocity)"
  proof (cases "status g = Playing")
    case True
    then show ?thesis using render_playing [of g f] range [of g] by auto
  next
    case False
    then show ?thesis using render_not_playing [of g f] by auto
  qed
  have cfg: "bird_minVelocity = - 0.6 \<and> bird_maxVelocity = 0.5"
    by (simp add: bird_minVelocity_def bird_maxVelocity_def)
  have after: "bird_minVelocity \<le> birdVelocity (run_flyer_ops (ops @ [Integrate]) g) \<and>
      birdVelocity (run_flyer_ops (ops @ [Integrate]) g) \<le> bird_maxVelocity"
    unfolding seq by (rule range)
  from cfg after integrate_velocity_eq [of g] pos frame show ?thesis by blast
qed

theorem integrate_velocity_clamped_witness:
  "status (running 0 0 8) = Playing \<and>
   (\<exists>g'. render frame0 (running 0 0 8) = Some g' \<and>
      bird_minVelocity \<le> birdVelocity g' \<and> birdVelocity g' \<le> bird_maxVelocity)"
proof -
  have h: "status (running 0 0 8) = Playing"
    by (simp add: scenario_defs)
  with integrate_velocity_clamped [of "[]" "running 0 0 8" frame0] show ?thesis by blast
qed

text \<open>
  Claim C8. An impulse sets the velocity to exactly \<open>bird_flapStrength\<close>, whatever the velocity
  and the status were, and a second impulse right after the first changes nothing.
\<close>

theorem flap_overwrites_velocity:
  "birdVelocity (flap g) = bird_flapStrength \<and> flap (flap g) = flap g"
  by (cases "status g") (simp_all add: flap_def startGame_def)

section \<open>Collision evaluation\<close>

text \<open>
  Claim C2. As stated the claim fails on the boundary: with the bird exactly at the lower
  bound plus the radius (-1.04) and no pipe, \<^verbatim>\<open>checkCollisions\<close> returns false.
\<close>

theorem checkCollisions_bounds_strict_counterexample:
  "status (running 0 0 (- 1.04)) = Playing \<and>
   birdY (running 0 0 (- 1.04)) = bounds_bottom + birdRadius \<and>
   birdY (running 0 0 (- 1.04)) - birdRadius \<le> bounds_bottom \<and>
   checkCollisions (running 0 0 (- 1.04)) = False"
proof -
  have a: "status (running 0 0 (- 1.04)) = Playing"
    by (simp add: scenario_defs)
  have b: "birdY (running 0 0 (- 1.04)) = bounds_bottom + birdRadius"
    by (simp add: scenario_defs birdRadius_def config_defs)
  have c: "birdY (running 0 0 (- 1.04)) - birdRadius \<le> bounds_bottom"
    by (simp add: scenario_defs birdRadius_def config_defs)
  have d: "checkCollisions (running 0 0 (- 1.04)) = False"
    by (simp add: scenario_defs checkCollisions_def birdRadius_def config_defs)
  from a b c d show ?thesis by blast
qed

text \<open>
  Claim C2. As amended: while playing, the bounds check fires exactly when the height is strictly
  below the lower bound plus the radius or strictly above the upper bound minus the radius;
  otherwise the result is that of the loop over the pipes, so with no pipe the strict bounds
  test is the whole result.
\<close>

theorem checkCollisions_bounds_strict:
  assumes "status g = Playing"
  shows "checkCollisions g =
      (birdY g < bounds_bottom + birdRadius \<or> birdY g > bounds_top - birdRadius
       \<or> checkPipes g (pipes g)) \<and>
    (pipes g = [] \<longrightarrow>
      checkCollisions g =
        (birdY g < bounds_bottom + birdRadius \<or> birdY g > bounds_top - birdRadius))"
  using assms by (auto simp add: checkCollisions_def)

theorem checkCollisions_bounds_strict_witness:
  "status (running 0 0 (- 1.05)) = Playing \<and> pipes (running 0 0 (- 1.05)) = [] \<and>
   checkCollisions (running 0 0 (- 1.05)) = True"
proof -
  have h: "status (running 0 0 (- 1.05)) = Playing" "pipes (running 0 0 (- 1.05)) = []"
    by (simp_all add: scenario_defs)
  have "birdY (running 0 0 (- 1.05)) < bounds_bottom + birdRadius"
    by (simp add: scenario_defs birdRadius_def config_defs)
  with h checkCollisions_bounds_strict [of "running 0 0 (- 1.05)"] show ?thesis by simp
qed

text \<open>
  Claim C3. One pipe created for the gap centre 9 (gap from 4.5 to 13.5), at the bird's depth and
  lateral position, radius 0.96: no collision with the bird at height 9, a collision with the
  bird at height 4.
\<close>

theorem checkCollisions_one_gate:
  "pipes (oneGate 9 9) =
     [\<lparr> px = 0, pz = - 20, gapTop = 13.5, gapBottom = 4.5, passed = False \<rparr>] \<and>
   pipes (oneGate 9 4) = pipes (oneGate 9 9) \<and>
   birdZ (oneGate 9 9) = - 20 \<and> birdX (oneGate 9 9) = 0 \<and> birdRadius = 0.96 \<and>
   birdY (oneGate 9 9) = 9 \<and> birdY (oneGate 9 4) = 4 \<and>
   checkCollisions (oneGate 9 9) = False \<and> checkCollisions (oneGate 9 4) = True"
proof -
  have p: "pipes (oneGate 9 9) =
      [\<lparr> px = 0, pz = - 20, gapTop = 13.5, gapBottom = 4.5, passed = False \<rparr>]"
    "pipes (oneGate 9 4) = pipes (oneGate 9 9)"
    by (simp_all add: scenario_defs config_defs Let_def)
  have b: "birdZ (oneGate 9 9) = - 20" "birdX (oneGate 9 9) = 0" "birdRadius = 0.96"
    "birdY (oneGate 9 9) = 9" "birdY (oneGate 9 4) = 4"
    by (simp_all add: scenario_defs config_defs birdRadius_def Let_def)
  have inside: "checkCollisions (oneGate 9 9) = False"
    by (simp add: scenario_defs checkCollisions_def pipeCollides_def birdRadius_def
        config_defs Let_def)
  have below: "checkCollisions (oneGate 9 4) = True"
    by (simp add: scenario_defs checkCollisions_def pipeCollides_def birdRadius_def
        config_defs Let_def)
  from p b inside below show ?thesis by blast
qed

text \<open>
  Claim C9. When the status is not \<open>Playing\<close>, \<^verbatim>\<open>checkCollisions\<close> returns false whatever the position
  of the bird and the content of the registry.
\<close>

theorem checkCollisions_not_playing:
  assumes "status g \<noteq> Playing"
  shows "checkCollisions g = False"
  using assms by (simp add: checkCollisions_def)

theorem checkCollisions_not_playing_witness:
  "status ((initial 0)\<lparr>birdY := - 100\<rparr>) \<noteq> Playing \<and>
   checkCollisions ((initial 0)\<lparr>birdY := - 100\<rparr>) = False \<and>
   checkCollisions (running 0 0 (- 100)) = True"
proof -
  have h: "status ((initial 0)\<lparr>birdY := - 100\<rparr>) \<noteq> Playing"
    by (simp add: initial_def)
  have "checkCollisions (running 0 0 (- 100)) = True"
    by (simp add: scenario_defs checkCollisions_def birdRadius_def config_defs)
  then show ?thesis
    using h checkCollisions_not_playing [OF h] by (simp add: scenario_defs)
qed

section \<open>Gate registry\<close>

text \<open>
  Claim C10. One call of \<^verbatim>\<open>updatePipes\<close> never fails on an index, handles every pipe of the registry
  exactly once (one advance, one pass test, one retirement test), also when pipes are spliced
  out during the call, and the pipes that stay keep their order: the result is the filter of
  the map over the registry as it was at the start, and the score grows by the number of
  pipes that pass in this call.
\<close>

theorem updatePipes_each_pipe_once:
  "updatePipes d g =
     Some (g\<lparr>pipes := filter stays (map (advanced (birdZ g)) (pipes g)),
             score := score g + int (length (filter (scoresNow (birdZ g)) (pipes g)))\<rparr>)"
  by (rule updatePipes_eq)

text \<open>
  Claim C7. One call of \<^verbatim>\<open>updatePipes\<close> advances the depth of every pipe by \<open>pipes_speed\<close>, which is
  positive, leaves the gap and the lateral position alone, and removes exactly the pipes
  whose advanced depth is beyond \<open>pipes_endZ\<close>.
\<close>

theorem updatePipes_advance_retire:
  "\<exists>g'. updatePipes d g = Some g' \<and>
     map pz (pipes g') =
       map (\<lambda>p. pz p + pipes_speed)
         (filter (\<lambda>p. \<not> pz p + pipes_speed > pipes_endZ) (pipes g)) \<and>
     map gapTop (pipes g') =
       map gapTop (filter (\<lambda>p. \<not> pz p + pipes_speed > pipes_endZ) (pipes g)) \<and>
     map gapBottom (pipes g') =
       map gapBottom (filter (\<lambda>p. \<not> pz p + pipes_speed > pipes_endZ) (pipes g)) \<and>
     map px (pipes g') =
       map px (filter (\<lambda>p. \<not> pz p + pipes_speed > pipes_endZ) (pipes g)) \<and>
     0 < pipes_speed"
  by (simp add: updatePipes_eq filter_stays_advanced advanced_def o_def pipes_speed_def)

text \<open>
  Claim C4. In one call of \<^verbatim>\<open>updatePipes\<close> the flag of a pipe becomes true exactly when it
  was false and the advanced depth is strictly beyond the bird's depth plus 2; a flag that
  is true stays true; the score grows by one for each pipe whose flag turns. Between two
  calls nothing touches a flag or the score of a running game: \<^verbatim>\<open>integrate\<close> and \<^verbatim>\<open>gameOver\<close>
  leave the registry and the score alone, \<^verbatim>\<open>spawnPipe\<close> appends one pipe with a false flag
  behind the pipes that are there, an impulse on a playing game changes neither, and an
  impulse that restarts the game empties the registry and sets the score to 0. So a playing
  frame of \<^verbatim>\<open>render\<close> maps every pipe, the spawned one last, to itself advanced with its flag
  kept or turned, and adds to the score the number of flags that turn. Over every run of
  frames and impulses from a nonnegative score, the score plus the number of pipes whose flag
  is still false grows by at most the number of pipes spawned: every pipe, over its whole
  life, is counted at most once.
\<close>

theorem updatePipes_scores_once:
  "(\<exists>g'. updatePipes d g = Some g' \<and>
      score g' = score g
        + int (length (filter (\<lambda>p. \<not> passed p \<and> pz p + pipes_speed > birdZ g + 2) (pipes g))) \<and>
      map passed (pipes g') =
        map (\<lambda>p. passed p \<or> pz p + pipes_speed > birdZ g + 2)
          (filter (\<lambda>p. \<not> pz p + pipes_speed > pipes_endZ) (pipes g))) \<and>
   (\<exists>g'. updatePipes_times n g = Some g' \<and> score g \<le> score g' \<and>
      score g' + int (unpassed (pipes g')) \<le> score g + int (unpassed (pipes g))) \<and>
   (pipes (integrate g) = pipes g \<and> score (integrate g) = score g) \<and>
   (pipes (spawnPipe r g) = pipes g @ [pipeGroup (pipes_minY + r * (pipes_maxY - pipes_minY))] \<and>
    passed (pipeGroup c) = False \<and> score (spawnPipe r g) = score g) \<and>
   (pipes (gameOver g) = pipes g \<and> score (gameOver g) = score g) \<and>
   (status g = Playing \<longrightarrow> pipes (flap g) = pipes g \<and> score (flap g) = score g) \<and>
   (status g \<noteq> Playing \<longrightarrow> pipes (flap g) = [] \<and> score (flap g) = 0) \<and>
   (\<exists>g'. render f g = Some g' \<and>
      (status g = Playing \<longrightarrow>
         pipes g' =
           filter (\<lambda>p. \<not> pz p > pipes_endZ)
             (map (\<lambda>p. p\<lparr>pz := pz p + pipes_speed,
                         passed := (passed p \<or> pz p + pipes_speed > birdZ g + 2)\<rparr>)
                (pipes g @ spawnedPipes f g)) \<and>
         score g' = score g
           + int (length (filter (\<lambda>p. \<not> passed p \<and> pz p + pipes_speed > birdZ g + 2)
                    (pipes g @ spawnedPipes f g)))) \<and>
      (status g \<noteq> Playing \<longrightarrow> pipes g' = pipes g \<and> score g' = score g)) \<and>
   (0 \<le> score g \<longrightarrow>
      (\<exists>g'. run_events es g = Some g' \<and> 0 \<le> score g' \<and>
         score g' + int (unpassed (pipes g'))
           \<le> score g + int (unpassed (pipes g)) + int (spawned es g)))"
proof -
  have sn: "scoresNow (birdZ g) = (\<lambda>p. \<not> passed p \<and> pz p + pipes_speed > birdZ g + 2)"
    by (simp add: scoresNow_def fun_eq_iff)
  have ad: "advanced (birdZ g) = (\<lambda>p. p\<lparr>pz := pz p + pipes_speed,
                         passed := (passed p \<or> pz p + pipes_speed > birdZ g + 2)\<rparr>)"
    by (simp add: advanced_def fun_eq_iff)
  have st: "stays = (\<lambda>p. \<not> pz p > pipes_endZ)"
    by (simp add: stays_def fun_eq_iff)
  have one: "\<exists>g'. updatePipes d g = Some g' \<and>
      score g' = score g
        + int (length (filter (\<lambda>p. \<not> passed p \<and> pz p + pipes_speed > birdZ g + 2) (pipes g))) \<and>
      map passed (pipes g') =
        map (\<lambda>p. passed p \<or> pz p + pipes_speed > birdZ g + 2)
          (filter (\<lambda>p. \<not> pz p + pipes_speed > pipes_endZ) (pipes g))"
    using sn by (simp add: updatePipes_eq filter_stays_advanced advanced_def o_def)
  have calls: "\<exists>g'. updatePipes_times n g = Some g' \<and> score g \<le> score g' \<and>
      score g' + int (unpassed (pipes g')) \<le> score g + int (unpassed (pipes g))"
    by (rule times_bound)
  have int: "pipes (integrate g) = pipes g \<and> score (integrate g) = score g"
    by (simp add: integrate_keeps_pipes)
  have spawn: "pipes (spawnPipe r g)
        = pipes g @ [pipeGroup (pipes_minY + r * (pipes_maxY - pipes_minY))] \<and>
      passed (pipeGroup c) = False \<and> score (spawnPipe r g) = score g"
    by (simp add: spawnPipe_appends pipeGroup_def)
  have over: "pipes (gameOver g) = pipes g \<and> score (gameOver g) = score g"
    by (simp add: gameOver_keeps_pipes gameOver_fields)
  have press: "status g = Playing \<longrightarrow> pipes (flap g) = pipes g \<and> score (flap g) = score g"
    using flap_playing_keeps [of g] by blast
  have restart: "status g \<noteq> Playing \<longrightarrow> pipes (flap g) = [] \<and> score (flap g) = 0"
    using flap_restart_clears [of g] by blast
  have frame: "\<exists>g'. render f g = Some g' \<and>
      (status g = Playing \<longrightarrow>
         pipes g' =
           filter (\<lambda>p. \<not> pz p > pipes_endZ)
             (map (\<lambda>p. p\<lparr>pz := pz p + pipes_speed,
                         passed := (passed p \<or> pz p + pipes_speed > birdZ g + 2)\<rparr>)
                (pipes g @ spawnedPipes f g)) \<and>
         score g' = score g
           + int (length (filter (\<lambda>p. \<not> passed p \<and> pz p + pipes_speed > birdZ g + 2)
                    (pipes g @ spawnedPipes f g)))) \<and>
      (status g \<noteq> Playing \<longrightarrow> pipes g' = pipes g \<and> score g' = score g)"
  proof (cases "status g = Playing")
    case True
    then show ?thesis
      using render_playing_pipes [of g f] unfolding sn ad st by blast
  next
    case False
    then show ?thesis using render_idle_pipes [of g f] by blast
  qed
  have run: "0 \<le> score g \<longrightarrow>
      (\<exists>g'. run_events es g = Some g' \<and> 0 \<le> score g' \<and>
         score g' + int (unpassed (pipes g'))
           \<le> score g + int (unpassed (pipes g)) + int (spawned es g))"
    using run_potential [of g es] by blast
  show ?thesis
    by (rule conjI [OF one conjI [OF calls conjI [OF int conjI [OF spawn conjI [OF over
          conjI [OF press conjI [OF restart conjI [OF frame run]]]]]]]])
qed

theorem updatePipes_scores_once_witness:
  "status (gateAt (- 18.2)) = Playing \<and> 0 \<le> score (gateAt (- 18.2)) \<and>
   map passed (pipes (gateAt (- 18.2))) = [False] \<and>
   pipes (flap (gateAt (- 18.2))) = pipes (gateAt (- 18.2)) \<and>
   (\<exists>g'. render frame0 (gateAt (- 18.2)) = Some g' \<and> score g' = 1 \<and>
      map passed (pipes g') = [True]) \<and>
   (\<exists>g'. run_events [Tick frame0, Press, Tick frame0] (gateAt (- 18.2)) = Some g' \<and>
      score g' = 1 \<and> map passed (pipes g') = [True] \<and>
      score g' + int (unpassed (pipes g'))
        \<le> 1 + int (spawned [Tick frame0, Press, Tick frame0] (gateAt (- 18.2)))) \<and>
   status (initial 0) \<noteq> Playing \<and> pipes (flap (initial 0)) = [] \<and>
   (\<exists>g'. render frame0 (initial 0) = Some g' \<and> pipes g' = [] \<and> score g' = 0)"
proof -
  let ?g0 = "gateAt (- 18.2)"
  let ?es = "[Tick frame0, Press, Tick frame0]"
  let ?g1 = "\<lparr> status = Playing, score = 1, highScore = 0, birdX = 0, birdY = 9.382,
      birdZ = - 20, birdVelocity = 0.382, tilt = - 0.0955,
      pipes = [\<lparr> px = 0, pz = - 17.9, gapTop = 13.5, gapBottom = 4.5, passed = True \<rparr>],
      gameTime = 0.016, lastPipeSpawn = 0, stored = [] \<rparr>"
  let ?g3 = "\<lparr> status = Playing, score = 1, highScore = 0, birdX = 0, birdY = 9.764,
      birdZ = - 20, birdVelocity = 0.382, tilt = - 0.18145,
      pipes = [\<lparr> px = 0, pz = - 17.6, gapTop = 13.5, gapBottom = 4.5, passed = True \<rparr>],
      gameTime = 0.032, lastPipeSpawn = 0, stored = [] \<rparr>"
  have g0: "?g0 =
    \<lparr> status = Playing, score = 0, highScore = 0, birdX = 0, birdY = 9, birdZ = - 20,
      birdVelocity = 0.4, tilt = 0,
      pipes = [\<lparr> px = 0, pz = - 18.2, gapTop = 13.5, gapBottom = 4.5, passed = False \<rparr>],
      gameTime = 0, lastPipeSpawn = 0, stored = [] \<rparr>"
    by (simp add: gateAt_def scenario_defs config_defs Let_def)
  have s1: "render frame0 ?g0 = Some ?g1"
    unfolding g0
    by (simp add: render_def integrate_def lerp_def frame0_def updatePipes_eq advanced_def
        stays_def scoresNow_def checkCollisions_def pipeCollides_def birdRadius_def
        config_defs Let_def)
  have s2: "flap ?g1 = ?g1\<lparr>birdVelocity := 0.4\<rparr>"
    by (simp add: flap_def bird_flapStrength_def)
  have s3: "render frame0 (?g1\<lparr>birdVelocity := 0.4\<rparr>) = Some ?g3"
    by (simp add: render_def integrate_def lerp_def frame0_def updatePipes_eq advanced_def
        stays_def scoresNow_def checkCollisions_def pipeCollides_def birdRadius_def
        config_defs Let_def)
  have run: "run_events ?es ?g0 = Some ?g3"
    by (simp only: run_events.simps step_event.simps s1 s2 s3 option.case)
  have a: "status ?g0 = Playing" "0 \<le> score ?g0" "map passed (pipes ?g0) = [False]"
    "score ?g0 = 0" "unpassed (pipes ?g0) = 1"
    unfolding g0 by (simp_all add: unpassed_def)
  have i: "status (initial 0) \<noteq> Playing" "pipes (initial 0) = []" "score (initial 0) = 0"
    by (simp_all add: initial_def)
  note live = updatePipes_scores_once [of 0 ?g0 0 0 0 frame0 ?es]
  note idle = updatePipes_scores_once [of 0 "initial 0" 0 0 0 frame0 "[]"]
  have press: "pipes (flap ?g0) = pipes ?g0"
    using live a(1) by blast
  have first: "\<exists>g'. render frame0 ?g0 = Some g' \<and> score g' = 1 \<and>
      map passed (pipes g') = [True]"
    unfolding s1 by simp
  have bound: "\<exists>g'. run_events ?es ?g0 = Some g' \<and> 0 \<le> score g' \<and>
      score g' + int (unpassed (pipes g'))
        \<le> score ?g0 + int (unpassed (pipes ?g0)) + int (spawned ?es ?g0)"
    using live a(2) by blast
  have whole: "\<exists>g'. run_events ?es ?g0 = Some g' \<and>
      score g' = 1 \<and> map passed (pipes g') = [True] \<and>
      score g' + int (unpassed (pipes g')) \<le> 1 + int (spawned ?es ?g0)"
    using bound unfolding run a(4) a(5) by simp
  have restart: "pipes (flap (initial 0)) = []"
    using idle i(1) by blast
  have still: "\<exists>g'. render frame0 (initial 0) = Some g' \<and> pipes g' = [] \<and> score g' = 0"
    using idle i by metis
  show ?thesis
    by (rule conjI [OF a(1) conjI [OF a(2) conjI [OF a(3) conjI [OF press conjI [OF first
          conjI [OF whole conjI [OF i(1) conjI [OF restart still]]]]]]]])
qed

section \<open>Game lifecycle\<close>

text \<open>
  Claim C5. \<^verbatim>\<open>gameOver\<close> sets the high score to the score and appends exactly one write of it when the
  score is strictly greater than the high score, and otherwise changes neither; this is what
  a frame does when it takes a playing game to \<open>Gameover\<close>. A frame that keeps the status
  writes nothing, nor does an impulse, and no operation lowers the high score.
\<close>

theorem gameOver_highScore:
  "highScore (gameOver g) = (if score g > highScore g then score g else highScore g) \<and>
   stored (gameOver g) = (if score g > highScore g then stored g @ [score g] else stored g) \<and>
   highScore g \<le> highScore (gameOver g) \<and>
   highScore (flap g) = highScore g \<and> stored (flap g) = stored g \<and>
   highScore (startGame g) = highScore g \<and>
   (\<exists>g'. render f g = Some g' \<and> highScore g \<le> highScore g' \<and>
      (status g = Playing \<and> status g' = Gameover \<longrightarrow>
         highScore g' = (if score g' > highScore g then score g' else highScore g) \<and>
         stored g' = (if score g' > highScore g then stored g @ [score g'] else stored g)) \<and>
      (status g' = status g \<longrightarrow> highScore g' = highScore g \<and> stored g' = stored g))"
proof -
  have over: "highScore (gameOver g) = (if score g > highScore g then score g else highScore g) \<and>
     stored (gameOver g) = (if score g > highScore g then stored g @ [score g] else stored g) \<and>
     highScore g \<le> highScore (gameOver g)"
    by (simp add: gameOver_def Let_def)
  have fl: "highScore (flap g) = highScore g \<and> stored (flap g) = stored g \<and>
     highScore (startGame g) = highScore g"
    by (simp add: flap_def startGame_def Let_def)
  have fr: "\<exists>g'. render f g = Some g' \<and> highScore g \<le> highScore g' \<and>
      (status g = Playing \<and> status g' = Gameover \<longrightarrow>
         highScore g' = (if score g' > highScore g then score g' else highScore g) \<and>
         stored g' = (if score g' > highScore g then stored g @ [score g'] else stored g)) \<and>
      (status g' = status g \<longrightarrow> highScore g' = highScore g \<and> stored g' = stored g)"
  proof (cases "status g = Playing")
    case True
    then obtain g' where g': "render f g = Some g'"
      "status g' = Playing \<or> status g' = Gameover"
      "status g' = Playing \<longrightarrow> highScore g' = highScore g \<and> stored g' = stored g"
      "status g' = Gameover \<longrightarrow>
        highScore g' = (if score g' > highScore g then score g' else highScore g) \<and>
        stored g' = (if score g' > highScore g then stored g @ [score g'] else stored g)"
      using render_playing [of g f] by blast
    then have "highScore g \<le> highScore g'" by auto
    with g' True show ?thesis by auto
  next
    case False
    then show ?thesis using render_not_playing [of g f] by auto
  qed
  from over fl fr show ?thesis by simp
qed

theorem gameOver_highScore_witness:
  "status (running 6 5 (- 5)) = Playing \<and>
   (\<exists>g'. render frame0 (running 6 5 (- 5)) = Some g' \<and> status g' = Gameover \<and>
      highScore g' = 6 \<and> stored g' = [6]) \<and>
   (\<exists>g'. render frame0 (running 6 5 8) = Some g' \<and> status g' = status (running 6 5 8) \<and>
      highScore g' = 5 \<and> stored g' = [])"
proof -
  let ?g = "running 6 5 (- 5)"
  let ?k = "running 6 5 8"
  have h: "status ?g = Playing" "highScore ?g = 5" "stored ?g = []"
    by (simp_all add: scenario_defs)
  have r: "status (the (render frame0 ?g)) = Gameover \<and> score (the (render frame0 ?g)) = 6"
    by (simp add: scenario_defs render_def updatePipes_def integrate_def checkCollisions_def
        gameOver_def birdRadius_def config_defs Let_def)
  have ended: "\<exists>g'. render frame0 ?g = Some g' \<and> status g' = Gameover \<and>
      highScore g' = 6 \<and> stored g' = [6]"
    using gameOver_highScore [of ?g frame0] h r by auto
  have k: "status ?k = Playing" "highScore ?k = 5" "stored ?k = []"
    by (simp_all add: scenario_defs)
  have s: "status (the (render frame0 ?k)) = Playing"
    by (simp add: scenario_defs render_def updatePipes_def integrate_def checkCollisions_def
        birdRadius_def config_defs Let_def)
  have going: "\<exists>g'. render frame0 ?k = Some g' \<and> status g' = status ?k \<and>
      highScore g' = 5 \<and> stored g' = []"
    using gameOver_highScore [of ?k frame0] k s by auto
  from h(1) ended going show ?thesis by blast
qed

text \<open>
  Claim C6. An impulse on a game that is in \<open>Start\<close> or \<open>Gameover\<close> gives a playing game with score 0,
  the bird at its start position, no pipe, both timers at 0, and the velocity equal to
  \<open>bird_flapStrength\<close>.
\<close>

theorem flap_starts_game:
  assumes "status g = Start \<or> status g = Gameover"
  shows "flap g =
     g\<lparr> status := Playing,
        score := 0,
        birdVelocity := bird_flapStrength,
        gameTime := 0,
        lastPipeSpawn := 0,
        birdX := bird_startX,
        birdY := bird_startY,
        birdZ := bird_startZ,
        tilt := 0,
        pipes := [] \<rparr>"
  using assms by (auto simp add: flap_def startGame_def)

theorem flap_starts_game_witness:
  "status (initial 0) = Start \<and> status (flap (initial 0)) = Playing \<and>
   birdVelocity (flap (initial 0)) = bird_flapStrength \<and>
   status (running 3 3 (- 5)\<lparr>status := Gameover\<rparr>) = Gameover \<and>
   score (flap (running 3 3 (- 5)\<lparr>status := Gameover\<rparr>)) = 0 \<and>
   birdY (flap (running 3 3 (- 5)\<lparr>status := Gameover\<rparr>)) = bird_startY"
proof -
  have h1: "status (initial 0) = Start \<or> status (initial 0) = Gameover"
    by (simp add: initial_def)
  have h2: "status (running 3 3 (- 5)\<lparr>status := Gameover\<rparr>) = Start
      \<or> status (running 3 3 (- 5)\<lparr>status := Gameover\<rparr>) = Gameover"
    by simp
  show ?thesis
    using flap_starts_game [OF h1] flap_starts_game [OF h2] by (simp add: initial_def)
qed

end
